theory Spec2Isabelle
  imports Main "HOL-Library.Word"
begin

section \<open>Strings\<close>

text \<open>
  A JavaScript string is a sequence of UTF-16 code units, and \<open>length\<close> counts code
  units. Values typed by the user are modelled as lists of 16-bit words. The texts the
  script itself writes (field ids, messages, class names, storage keys) are ASCII
  literals and are kept as \<open>string\<close>.
\<close>

type_synonym code_unit = "16 word"
type_synonym js_string = "code_unit list"

text \<open>
  The code units removed by \<open>String.prototype.trim\<close> and matched by the regular
  expression class \<open>\s\<close>: WhiteSpace and LineTerminator of ECMAScript.
\<close>

definition isWhiteSpace :: "code_unit \<Rightarrow> bool" where
  "isWhiteSpace c =
     (c = 0x0009 \<or> c = 0x000A \<or> c = 0x000B \<or> c = 0x000C \<or> c = 0x000D \<or>
      c = 0x0020 \<or> c = 0x00A0 \<or> c = 0x1680 \<or> (0x2000 \<le> c \<and> c \<le> 0x200A) \<or>
      c = 0x2028 \<or> c = 0x2029 \<or> c = 0x202F \<or> c = 0x205F \<or> c = 0x3000 \<or>
      c = 0xFEFF)"

definition trim :: "js_string \<Rightarrow> js_string" where
  "trim s = rev (dropWhile isWhiteSpace (rev (dropWhile isWhiteSpace s)))"

section \<open>Regular expressions\<close>

text \<open>
  The one pattern of the script uses character classes, concatenation and \<open>+\<close>, anchored
  at both ends, without the \<open>u\<close> or \<open>m\<close> flag: \<open>test\<close> asks whether the whole sequence
  of code units is in the language. Matching is by derivatives.
\<close>

datatype regex =
    Zero
  | One
  | Atom "code_unit \<Rightarrow> bool"
  | Alt regex regex
  | Seq regex regex
  | Star regex

definition Plus :: "regex \<Rightarrow> regex" where
  "Plus r = Seq r (Star r)"

fun nullable :: "regex \<Rightarrow> bool" where
  "nullable Zero = False"
| "nullable One = True"
| "nullable (Atom p) = False"
| "nullable (Alt r s) = (nullable r \<or> nullable s)"
| "nullable (Seq r s) = (nullable r \<and> nullable s)"
| "nullable (Star r) = True"

fun deriv :: "code_unit \<Rightarrow> regex \<Rightarrow> regex" where
  "deriv c Zero = Zero"
| "deriv c One = Zero"
| "deriv c (Atom p) = (if p c then One else Zero)"
| "deriv c (Alt r s) = Alt (deriv c r) (deriv c s)"
| "deriv c (Seq r s) =
     (if nullable r then Alt (Seq (deriv c r) s) (deriv c s) else Seq (deriv c r) s)"
| "deriv c (Star r) = Seq (deriv c r) (Star r)"

definition test :: "regex \<Rightarrow> js_string \<Rightarrow> bool" where
  "test r s = nullable (foldl (\<lambda>q c. deriv c q) r s)"

text \<open>The class \<open>[^\s@]\<close>; \<open>@\<close> is U+0040 and \<open>.\<close> is U+002E.\<close>

definition notSpaceOrAt :: "code_unit \<Rightarrow> bool" where
  "notSpaceOrAt c = (\<not> isWhiteSpace c \<and> c \<noteq> 0x0040)"

text \<open>\<^verbatim>\<open>/^[^\s@]+@[^\s@]+\.[^\s@]+$/\<close>\<close>

definition emailPattern :: regex where
  "emailPattern =
     Seq (Plus (Atom notSpaceOrAt))
       (Seq (Atom (\<lambda>c. c = 0x0040))
         (Seq (Plus (Atom notSpaceOrAt))
           (Seq (Atom (\<lambda>c. c = 0x002E))
             (Plus (Atom notSpaceOrAt)))))"

section \<open>Validation rules\<close>

text \<open>
  A property that an object literal does not have reads as \<open>undefined\<close>: \<open>None\<close> here.
\<close>

record errorMessages =
  msg_required :: "string option"
  msg_minLength :: "string option"
  msg_maxLength :: "string option"
  msg_pattern :: "string option"

record rules =
  required :: bool
  minLength :: "nat option"
  maxLength :: "nat option"
  pattern :: "regex option"
  errorMessages :: errorMessages

definition senderName_rules :: rules where
  "senderName_rules =
     \<lparr> required = True, minLength = Some 2, maxLength = Some 100, pattern = None,
       errorMessages =
         \<lparr> msg_required = Some ''Please enter your name'',
           msg_minLength = Some ''Name must be at least 2 characters'',
           msg_maxLength = Some ''Name must be less than 100 characters'',
           msg_pattern = None \<rparr> \<rparr>"

definition senderEmail_rules :: rules where
  "senderEmail_rules =
     \<lparr> required = True, minLength = None, maxLength = None,
       pattern = Some emailPattern,
       errorMessages =
         \<lparr> msg_required = Some ''Please enter your email address'',
           msg_minLength = None,
           msg_maxLength = None,
           msg_pattern =
             Some ''Please enter a valid email address (e.g., name@example.com)'' \<rparr> \<rparr>"

definition subject_rules :: rules where
  "subject_rules =
     \<lparr> required = True, minLength = Some 3, maxLength = Some 200, pattern = None,
       errorMessages =
         \<lparr> msg_required = Some ''Please enter a subject'',
           msg_minLength = Some ''Subject must be at least 3 characters'',
           msg_maxLength = Some ''Subject must be less than 200 characters'',
           msg_pattern = None \<rparr> \<rparr>"

definition message_rules :: rules where
  "message_rules =
     \<lparr> required = True, minLength = Some 10, maxLength = Some 5000, pattern = None,
       errorMessages =
         \<lparr> msg_required = Some ''Please enter your message'',
           msg_minLength = Some ''Message must be at least 10 characters'',
           msg_maxLength = Some ''Message must be less than 5000 characters'',
           msg_pattern = None \<rparr> \<rparr>"

text \<open>
  \<open>validationRules[fieldId]\<close>. For an id that is no key of the table the lookup gives
  \<open>undefined\<close>, or a member of \<open>Object.prototype\<close> that has none of the rule
  properties; \<open>validateField\<close> answers "valid" in both cases, so both are \<open>None\<close>.
\<close>

definition validationRules :: "string \<Rightarrow> rules option" where
  "validationRules fieldId =
     (if fieldId = ''senderName'' then Some senderName_rules
      else if fieldId = ''senderEmail'' then Some senderEmail_rules
      else if fieldId = ''subject'' then Some subject_rules
      else if fieldId = ''message'' then Some message_rules
      else None)"

record validation =
  isValid :: bool
  errorMessage :: "string option"

text \<open>
  \<open>rules.minLength && ...\<close> and \<open>rules.maxLength && ...\<close> skip the check when the
  bound is absent and also when it is the number 0, which is falsy.
\<close>

definition validateField :: "string \<Rightarrow> js_string \<Rightarrow> validation" where
  "validateField fieldId value =
     (case validationRules fieldId of
        None \<Rightarrow> \<lparr> isValid = True, errorMessage = Some [] \<rparr>
      | Some rules \<Rightarrow>
          (let trimmedValue = trim value in
           if required rules \<and> trimmedValue = [] then
             \<lparr> isValid = False, errorMessage = msg_required (errorMessages rules) \<rparr>
           else if (case minLength rules of None \<Rightarrow> False
                    | Some n \<Rightarrow> n \<noteq> 0 \<and> length trimmedValue < n) then
             \<lparr> isValid = False, errorMessage = msg_minLength (errorMessages rules) \<rparr>
           else if (case maxLength rules of None \<Rightarrow> False
                    | Some n \<Rightarrow> n \<noteq> 0 \<and> length trimmedValue > n) then
             \<lparr> isValid = False, errorMessage = msg_maxLength (errorMessages rules) \<rparr>
           else if (case pattern rules of None \<Rightarrow> False
                    | Some re \<Rightarrow> \<not> test re trimmedValue) then
             \<lparr> isValid = False, errorMessage = msg_pattern (errorMessages rules) \<rparr>
           else \<lparr> isValid = True, errorMessage = Some [] \<rparr>))"

text \<open>An ASCII literal of the script as a JavaScript string.\<close>

definition of_ascii :: "string \<Rightarrow> js_string" where
  "of_ascii s = map (\<lambda>c. of_nat (of_char c)) s"

section \<open>JSON values and localStorage\<close>

text \<open>
  The values that \<open>JSON.parse\<close> returns. A property list stands for an object, the
  first binding of a key being the one that is read. Numbers are the integers: the only
  numbers the script stores are \<open>Date.now()\<close> readings (milliseconds, far below
  \<open>2^53\<close>); fractions and the special values of doubles are not modelled.
\<close>

datatype json =
    JNull
  | JBool bool
  | JNum int
  | JStr js_string
  | JArr "json list"
  | JObj "(js_string \<times> json) list"

datatype js_error = SyntaxError | TypeError

text \<open>
  \<open>JSON.parse\<close> and \<open>JSON.stringify\<close> are built-ins of the host and are not
  re-implemented: a string kept in localStorage is represented by what \<open>JSON.parse\<close>
  makes of it, either the value it denotes (\<open>JsonText\<close>) or, for a text that is not
  JSON, the text itself (\<open>NotJson\<close>), on which \<open>JSON.parse\<close> throws SyntaxError.
  \<open>JSON.stringify\<close> of a value is then the text that denotes it.
\<close>

datatype stored = NotJson js_string | JsonText json

record localStorage =
  contactMessages :: "stored option"
  theme :: "js_string option"

text \<open>
  \<open>JSON.parse(localStorage.getItem(key))\<close>: \<open>getItem\<close> gives \<open>null\<close> for an absent
  key, which \<open>JSON.parse\<close> reads as the text \<open>null\<close>.
\<close>

definition JSON_parse :: "stored option \<Rightarrow> js_error + json" where
  "JSON_parse item =
     (case item of
        None \<Rightarrow> Inr JNull
      | Some (NotJson t) \<Rightarrow> Inl SyntaxError
      | Some (JsonText v) \<Rightarrow> Inr v)"

definition JSON_stringify :: "json \<Rightarrow> stored" where
  "JSON_stringify v = JsonText v"

text \<open>Truthiness, as \<open>||\<close> and \<open>!\<close> use it.\<close>

fun truthy :: "json \<Rightarrow> bool" where
  "truthy JNull = False"
| "truthy (JBool b) = b"
| "truthy (JNum n) = (n \<noteq> 0)"
| "truthy (JStr s) = (s \<noteq> [])"
| "truthy (JArr xs) = True"
| "truthy (JObj kvs) = True"

text \<open>\<open>x || []\<close>\<close>

definition or_empty :: "json \<Rightarrow> json" where
  "or_empty v = (if truthy v then v else JArr [])"

text \<open>
  \<open>messages.unshift(message)\<close>: only an array has the method; on any other truthy
  value the call is a TypeError.
\<close>

fun unshift :: "json \<Rightarrow> json \<Rightarrow> js_error + json" where
  "unshift (JArr xs) message = Inr (JArr (message # xs))"
| "unshift other message = Inl TypeError"

definition saveMessageToStorage :: "json \<Rightarrow> localStorage \<Rightarrow> js_error + localStorage" where
  "saveMessageToStorage message st =
     (case JSON_parse (contactMessages st) of
        Inl e \<Rightarrow> Inl e
      | Inr parsed \<Rightarrow>
          (case unshift (or_empty parsed) message of
             Inl e \<Rightarrow> Inl e
           | Inr messages \<Rightarrow>
               Inr (st\<lparr> contactMessages := Some (JSON_stringify messages) \<rparr>)))"

definition getMessagesFromStorage :: "localStorage \<Rightarrow> js_error + json" where
  "getMessagesFromStorage st =
     (case JSON_parse (contactMessages st) of
        Inl e \<Rightarrow> Inl e
      | Inr parsed \<Rightarrow> Inr (or_empty parsed))"

text \<open>
  \<open>msg.id\<close>: reading a property of \<open>null\<close> is a TypeError; an object gives the
  value bound to \<open>id\<close> or \<open>undefined\<close> (\<open>None\<close>); arrays, strings, numbers and
  booleans have no such property.
\<close>

fun get_id :: "json \<Rightarrow> js_error + json option" where
  "get_id JNull = Inl TypeError"
| "get_id (JObj kvs) = Inr (map_of kvs (of_ascii ''id''))"
| "get_id other = Inr None"

text \<open>
  \<open>msg => msg.id !== messageId\<close> with \<open>messageId\<close> a number: strict inequality holds
  unless \<open>msg.id\<close> is that same number.
\<close>

definition id_differs :: "int \<Rightarrow> json \<Rightarrow> js_error + bool" where
  "id_differs messageId msg =
     (case get_id msg of
        Inl e \<Rightarrow> Inl e
      | Inr i \<Rightarrow> Inr (i \<noteq> Some (JNum messageId)))"

text \<open>\<open>Array.prototype.filter\<close> with a callback that may throw.\<close>

fun filter_array :: "(json \<Rightarrow> js_error + bool) \<Rightarrow> json list \<Rightarrow> js_error + json list" where
  "filter_array f [] = Inr []"
| "filter_array f (x # xs) =
     (case f x of
        Inl e \<Rightarrow> Inl e
      | Inr keep \<Rightarrow>
          (case filter_array f xs of
             Inl e \<Rightarrow> Inl e
           | Inr ys \<Rightarrow> Inr (if keep then x # ys else ys)))"

fun js_filter :: "(json \<Rightarrow> js_error + bool) \<Rightarrow> json \<Rightarrow> js_error + json" where
  "js_filter f (JArr xs) =
     (case filter_array f xs of Inl e \<Rightarrow> Inl e | Inr ys \<Rightarrow> Inr (JArr ys))"
| "js_filter f other = Inl TypeError"

text \<open>
  \<open>deleteMessage\<close> on localStorage. Its last statement, \<open>renderMessagesList()\<close>, reads
  localStorage and writes the messages modal only; that rendering is not modelled.
\<close>

definition deleteMessage :: "int \<Rightarrow> localStorage \<Rightarrow> js_error + localStorage" where
  "deleteMessage messageId st =
     (case getMessagesFromStorage st of
        Inl e \<Rightarrow> Inl e
      | Inr messages \<Rightarrow>
          (case js_filter (id_differs messageId) messages of
             Inl e \<Rightarrow> Inl e
           | Inr kept \<Rightarrow> Inr (st\<lparr> contactMessages := Some (JSON_stringify kept) \<rparr>)))"

text \<open>\<open>clearAllMessages\<close>; the answer to \<open>confirm(...)\<close> is an input.\<close>

definition clearAllMessages :: "bool \<Rightarrow> localStorage \<Rightarrow> localStorage" where
  "clearAllMessages confirmed st =
     (if confirmed then st\<lparr> contactMessages := None \<rparr> else st)"

section \<open>The page\<close>

text \<open>
  The elements the script reaches through \<open>document.getElementById\<close> are declared by
  the HTML page; the model takes them as given. Each form input carries its value, the
  value \<open>form.reset()\<close> gives it back, its class list and the \<open>.error-message\<close> span
  that \<open>input.parentElement.querySelector\<close> finds (\<open>None\<close> when there is none).
\<close>

record error_span =
  textContent :: string
  span_classList :: "string set"

record input_el =
  input_value :: js_string
  defaultValue :: js_string
  classList :: "string set"
  errorSpan :: "error_span option"

text \<open>The callbacks handed to \<open>setTimeout\<close>, kept with their delay in milliseconds.\<close>

datatype task = RemoveShake string | ClearErrorText string | CloseModal

record page =
  inputs :: "string \<Rightarrow> input_el"
  activeElement :: "string option"
  formStatus_className :: string
  formStatus_textContent :: string
  submitBtn_disabled :: bool
  submitBtn_textContent :: string
  body_classList :: "string set"
  timers :: "(nat \<times> task) list"
  storage :: localStorage

text \<open>
  Assigning \<open>undefined\<close> to \<open>textContent\<close> leaves the empty text.
\<close>

definition text_of :: "string option \<Rightarrow> string" where
  "text_of message = (case message of None \<Rightarrow> [] | Some m \<Rightarrow> m)"

definition showFieldError :: "string \<Rightarrow> string option \<Rightarrow> page \<Rightarrow> page" where
  "showFieldError fieldId message pg =
     (let input = inputs pg fieldId;
          input1 = input\<lparr> classList := insert ''error'' (classList input) - {''valid''} \<rparr>;
          input2 =
            (case errorSpan input1 of
               None \<Rightarrow> input1
             | Some span \<Rightarrow>
                 input1\<lparr> errorSpan :=
                   Some (span\<lparr> textContent := text_of message,
                               span_classList := insert ''visible'' (span_classList span) \<rparr>) \<rparr>);
          input3 = input2\<lparr> classList := insert ''shake'' (classList input2) \<rparr>
      in pg\<lparr> inputs := (inputs pg)(fieldId := input3),
              timers := timers pg @ [(500, RemoveShake fieldId)] \<rparr>)"

definition clearFieldError :: "string \<Rightarrow> bool \<Rightarrow> page \<Rightarrow> page" where
  "clearFieldError fieldId showValid pg =
     (let input = inputs pg fieldId;
          input1 = input\<lparr> classList := classList input - {''error''} \<rparr>;
          input2 =
            (if showValid then input1\<lparr> classList := insert ''valid'' (classList input1) \<rparr>
             else input1\<lparr> classList := classList input1 - {''valid''} \<rparr>)
      in (case errorSpan input2 of
            None \<Rightarrow> pg\<lparr> inputs := (inputs pg)(fieldId := input2) \<rparr>
          | Some span \<Rightarrow>
              pg\<lparr> inputs := (inputs pg)(fieldId := input2\<lparr> errorSpan :=
                     Some (span\<lparr> span_classList := span_classList span - {''visible''} \<rparr>) \<rparr>),
                   timers := timers pg @ [(200, ClearErrorText fieldId)] \<rparr>))"

definition fields :: "string list" where
  "fields = [''senderName'', ''senderEmail'', ''subject'', ''message'']"

text \<open>
  The body of the \<open>forEach\<close> of \<open>validateForm\<close>, on the page and the two local
  variables \<open>isFormValid\<close> and \<open>firstInvalidField\<close>.
\<close>

definition validateForm_field ::
  "string \<Rightarrow> page \<times> bool \<times> string option \<Rightarrow> page \<times> bool \<times> string option" where
  "validateForm_field fieldId acc =
     (case acc of (pg, isFormValid, firstInvalidField) \<Rightarrow>
        (let result = validateField fieldId (input_value (inputs pg fieldId)) in
         if \<not> isValid result then
           (showFieldError fieldId (errorMessage result) pg, False,
            (if firstInvalidField = None then Some fieldId else firstInvalidField))
         else (clearFieldError fieldId True pg, isFormValid, firstInvalidField)))"

definition validateForm :: "page \<Rightarrow> page \<times> bool" where
  "validateForm pg =
     (case fold validateForm_field fields (pg, True, None) of
        (pg', isFormValid, firstInvalidField) \<Rightarrow>
          ((case firstInvalidField of
              None \<Rightarrow> pg'
            | Some fieldId \<Rightarrow> pg'\<lparr> activeElement := Some fieldId \<rparr>),
           isFormValid))"

section \<open>Submission\<close>

text \<open>
  \<open>handleSubmit\<close> up to the call of \<open>emailjs.send\<close>. The two clock readings
  (\<open>Date.now()\<close> and \<open>new Date().toISOString()\<close>) are inputs. The result is the page
  and, when the send was started, the \<open>formData\<close> and \<open>templateParams\<close> objects.
  Writes to the console are left out.
\<close>

definition handleSubmit :: "int \<Rightarrow> js_string \<Rightarrow> page \<Rightarrow> page \<times> (json \<times> json) option" where
  "handleSubmit now isoDate pg =
     (let pg1 = pg\<lparr> formStatus_className := ''form-status'', formStatus_textContent := [] \<rparr> in
      case validateForm pg1 of
        (pg2, ok) \<Rightarrow>
          if \<not> ok then
            (pg2\<lparr> formStatus_className := ''form-status error'',
                  formStatus_textContent := ''Please fix the errors above and try again.'' \<rparr>,
             None)
          else
            (let formData = JObj
                   [(of_ascii ''id'', JNum now),
                    (of_ascii ''name'', JStr (trim (input_value (inputs pg2 ''senderName'')))),
                    (of_ascii ''email'', JStr (trim (input_value (inputs pg2 ''senderEmail'')))),
                    (of_ascii ''subject'', JStr (trim (input_value (inputs pg2 ''subject'')))),
                    (of_ascii ''message'', JStr (trim (input_value (inputs pg2 ''message'')))),
                    (of_ascii ''date'', JStr isoDate)];
                 templateParams = JObj
                   [(of_ascii ''from_name'', JStr (trim (input_value (inputs pg2 ''senderName'')))),
                    (of_ascii ''from_email'', JStr (trim (input_value (inputs pg2 ''senderEmail'')))),
                    (of_ascii ''subject'', JStr (trim (input_value (inputs pg2 ''subject'')))),
                    (of_ascii ''message'', JStr (trim (input_value (inputs pg2 ''message''))))]
             in (pg2\<lparr> submitBtn_disabled := True, submitBtn_textContent := ''Sending...'' \<rparr>,
                 Some (formData, templateParams))))"

text \<open>\<open>document.getElementById('contactForm').reset()\<close>\<close>

definition reset :: "page \<Rightarrow> page" where
  "reset pg =
     pg\<lparr> inputs := (\<lambda>fieldId. (inputs pg fieldId)\<lparr> input_value := defaultValue (inputs pg fieldId) \<rparr>) \<rparr>"

text \<open>
  The function given to \<open>.then\<close>. \<open>saveMessageToStorage\<close> is its first statement with
  an effect, so an exception there leaves the page as it was.
\<close>

definition handleSubmit_then :: "json \<Rightarrow> page \<Rightarrow> js_error + page" where
  "handleSubmit_then formData pg =
     (case saveMessageToStorage formData (storage pg) of
        Inl e \<Rightarrow> Inl e
      | Inr st \<Rightarrow>
          (let pg1 = pg\<lparr> storage := st,
                         formStatus_className := ''form-status success'',
                         formStatus_textContent :=
                           ''Message sent successfully! I'' @ [CHR 0x27] @ ''ll get back to you soon.'',
                         submitBtn_textContent := ''Send Message'',
                         submitBtn_disabled := False \<rparr>;
               pg2 = reset pg1;
               pg3 = fold (\<lambda>fieldId. clearFieldError fieldId False) fields pg2
           in Inr (pg3\<lparr> timers := timers pg3 @ [(2500, CloseModal)] \<rparr>)))"

text \<open>The function given to \<open>.catch\<close>.\<close>

definition handleSubmit_catch :: "page \<Rightarrow> page" where
  "handleSubmit_catch pg =
     pg\<lparr> formStatus_className := ''form-status error'',
         formStatus_textContent :=
           ''Failed to send message. Please try again or email me directly.'',
         submitBtn_textContent := ''Send Message'',
         submitBtn_disabled := False \<rparr>"

text \<open>
  The two ways the promise of \<open>emailjs.send\<close> settles. In \<open>p.then(f).catch(g)\<close> the
  function \<open>g\<close> runs when \<open>p\<close> rejects and also when \<open>f\<close> throws.
\<close>

datatype outcome = Fulfilled | Rejected

definition handleSubmit_settled :: "outcome \<Rightarrow> json \<Rightarrow> page \<Rightarrow> page" where
  "handleSubmit_settled result formData pg =
     (case result of
        Rejected \<Rightarrow> handleSubmit_catch pg
      | Fulfilled \<Rightarrow>
          (case handleSubmit_then formData pg of
             Inl e \<Rightarrow> handleSubmit_catch pg
           | Inr pg' \<Rightarrow> pg'))"

section \<open>Theme\<close>

text \<open>\<open>!savedTheme\<close>: true for \<open>null\<close> and for the empty string.\<close>

definition unset :: "js_string option \<Rightarrow> bool" where
  "unset savedTheme = (case savedTheme of None \<Rightarrow> True | Some s \<Rightarrow> s = [])"

text \<open>
  \<open>initializeTheme\<close>; what the media query \<open>(prefers-color-scheme: dark)\<close> answers is
  an input.
\<close>

definition initializeTheme :: "bool \<Rightarrow> page \<Rightarrow> page" where
  "initializeTheme prefersDark pg =
     (let savedTheme = theme (storage pg) in
      if savedTheme = Some (of_ascii ''dark'') \<or> (unset savedTheme \<and> prefersDark) then
        pg\<lparr> body_classList := insert ''dark-mode'' (body_classList pg) \<rparr>
      else pg)"

definition toggleTheme :: "page \<Rightarrow> page" where
  "toggleTheme pg =
     (let toggled =
            (if ''dark-mode'' \<in> body_classList pg then body_classList pg - {''dark-mode''}
             else insert ''dark-mode'' (body_classList pg));
          isDarkMode = (''dark-mode'' \<in> toggled)
      in pg\<lparr> body_classList := toggled,
              storage := (storage pg)\<lparr> theme :=
                Some (of_ascii (if isDarkMode then ''dark'' else ''light'')) \<rparr> \<rparr>)"

text \<open>The listener for a change of the operating system's colour scheme.\<close>

definition osThemeChanged :: "bool \<Rightarrow> page \<Rightarrow> page" where
  "osThemeChanged matches pg =
     (let savedTheme = theme (storage pg) in
      if unset savedTheme then
        (if matches then pg\<lparr> body_classList := insert ''dark-mode'' (body_classList pg) \<rparr>
         else pg\<lparr> body_classList := body_classList pg - {''dark-mode''} \<rparr>)
      else pg)"

section \<open>Events\<close>

text \<open>
  What the page reacts to, one handler at a time: a submission together with the way its
  send settles, the deletion of a message, "Clear All" with the answer to the
  confirmation, the theme toggle, a change of the system's colour scheme, and the
  initialisation of the theme. An exception that escapes a handler ends it; none of the
  handlers has written anything by then.
\<close>

datatype event =
    Submit int js_string outcome
  | DeleteMessage int
  | ClearAll bool
  | ToggleTheme
  | OsThemeChanged bool
  | InitializeTheme bool

fun step :: "event \<Rightarrow> page \<Rightarrow> page" where
  "step (Submit now isoDate result) pg =
     (case handleSubmit now isoDate pg of
        (pg', None) \<Rightarrow> pg'
      | (pg', Some (formData, templateParams)) \<Rightarrow> handleSubmit_settled result formData pg')"
| "step (DeleteMessage messageId) pg =
     (case deleteMessage messageId (storage pg) of
        Inl e \<Rightarrow> pg
      | Inr st \<Rightarrow> pg\<lparr> storage := st \<rparr>)"
| "step (ClearAll confirmed) pg = pg\<lparr> storage := clearAllMessages confirmed (storage pg) \<rparr>"
| "step ToggleTheme pg = toggleTheme pg"
| "step (OsThemeChanged matches) pg = osThemeChanged matches pg"
| "step (InitializeTheme prefersDark) pg = initializeTheme prefersDark pg"

section \<open>The specification's terms\<close>

text \<open>
  The rule order of the field validator as the specification words it: the four kinds of
  rule in their fixed order, when each one fails on a trimmed value, its message, and
  the verdict given by the first rule that fails.
\<close>

datatype rule_kind = Required | MinLength | MaxLength | Pattern

definition rule_order :: "rule_kind list" where
  "rule_order = [Required, MinLength, MaxLength, Pattern]"

fun rule_fails :: "rules \<Rightarrow> js_string \<Rightarrow> rule_kind \<Rightarrow> bool" where
  "rule_fails r t Required = (required r \<and> t = [])"
| "rule_fails r t MinLength = (case minLength r of None \<Rightarrow> False | Some n \<Rightarrow> length t < n)"
| "rule_fails r t MaxLength = (case maxLength r of None \<Rightarrow> False | Some n \<Rightarrow> length t > n)"
| "rule_fails r t Pattern = (case pattern r of None \<Rightarrow> False | Some re \<Rightarrow> \<not> test re t)"

fun rule_message :: "rules \<Rightarrow> rule_kind \<Rightarrow> string option" where
  "rule_message r Required = msg_required (errorMessages r)"
| "rule_message r MinLength = msg_minLength (errorMessages r)"
| "rule_message r MaxLength = msg_maxLength (errorMessages r)"
| "rule_message r Pattern = msg_pattern (errorMessages r)"

definition first_failing_rule :: "rules \<Rightarrow> js_string \<Rightarrow> rule_kind option" where
  "first_failing_rule r value = find (rule_fails r (trim value)) rule_order"

definition spec_validate :: "rules \<Rightarrow> js_string \<Rightarrow> validation" where
  "spec_validate r value =
     (case first_failing_rule r value of
        None \<Rightarrow> \<lparr> isValid = True, errorMessage = Some [] \<rparr>
      | Some k \<Rightarrow> \<lparr> isValid = False, errorMessage = rule_message r k \<rparr>)"

text \<open>A field of the form fails when the validator rejects the value typed into it.\<close>

definition field_fails :: "page \<Rightarrow> string \<Rightarrow> bool" where
  "field_fails pg fieldId = (\<not> isValid (validateField fieldId (input_value (inputs pg fieldId))))"

text \<open>
  The failure indicators of an input: the \<open>error\<close> class without the \<open>valid\<close> class
  and, where the input has a message span, the message shown in it.
\<close>

definition shows_error :: "input_el \<Rightarrow> string option \<Rightarrow> bool" where
  "shows_error input message =
     (''error'' \<in> classList input \<and> ''valid'' \<notin> classList input \<and>
      (case errorSpan input of
         None \<Rightarrow> True
       | Some span \<Rightarrow> textContent span = text_of message \<and> ''visible'' \<in> span_classList span))"

text \<open>Two pages agree on all that the loop of \<open>validateForm\<close> does not write: the values
  typed into the inputs, the focus, the status line, the submit button, the classes of
  the body and localStorage.\<close>

definition same_frame :: "page \<Rightarrow> page \<Rightarrow> bool" where
  "same_frame pg pg' =
     ((\<forall>g. input_value (inputs pg' g) = input_value (inputs pg g)) \<and>
      activeElement pg' = activeElement pg \<and> storage pg' = storage pg \<and>
      formStatus_className pg' = formStatus_className pg \<and>
      formStatus_textContent pg' = formStatus_textContent pg \<and>
      submitBtn_disabled pg' = submitBtn_disabled pg \<and>
      submitBtn_textContent pg' = submitBtn_textContent pg \<and>
      body_classList pg' = body_classList pg)"

text \<open>
  The stored collection is the array \<open>xs\<close>; no value under the key is the empty
  collection.
\<close>

definition holds_array :: "localStorage \<Rightarrow> json list \<Rightarrow> bool" where
  "holds_array st xs =
     (contactMessages st = Some (JsonText (JArr xs)) \<or> (contactMessages st = None \<and> xs = []))"

text \<open>An entry whose \<open>id\<close> is the number \<open>n\<close>.\<close>

definition has_id :: "int \<Rightarrow> json \<Rightarrow> bool" where
  "has_id n msg = (get_id msg = Inr (Some (JNum n)))"

text \<open>Appending a sequence of messages, one \<open>saveMessageToStorage\<close> after the other.\<close>

fun saveAll :: "json list \<Rightarrow> localStorage \<Rightarrow> js_error + localStorage" where
  "saveAll [] st = Inr st"
| "saveAll (m # ms) st =
     (case saveMessageToStorage m st of Inl e \<Rightarrow> Inl e | Inr st' \<Rightarrow> saveAll ms st')"

text \<open>The theme key is absent or holds one of the two literals.\<close>

definition theme_ok :: "localStorage \<Rightarrow> bool" where
  "theme_ok st =
     (theme st = None \<or> theme st = Some (of_ascii ''dark'') \<or> theme st = Some (of_ascii ''light''))"

section \<open>Example states\<close>

definition message :: "int \<Rightarrow> string \<Rightarrow> json" where
  "message n body =
     JObj [(of_ascii ''id'', JNum n),
           (of_ascii ''name'', JStr (of_ascii ''Jo'')),
           (of_ascii ''email'', JStr (of_ascii ''jo@x.com'')),
           (of_ascii ''subject'', JStr (of_ascii ''Hi there'')),
           (of_ascii ''message'', JStr (of_ascii body)),
           (of_ascii ''date'', JStr (of_ascii ''2026-01-29T15:45:00.000Z''))]"

definition blank_input :: "string \<Rightarrow> input_el" where
  "blank_input typed =
     \<lparr> input_value = of_ascii typed, defaultValue = [], classList = {},
       errorSpan = Some \<lparr> textContent = [], span_classList = {} \<rparr> \<rparr>"

text \<open>A form filled in with the given name, address, subject and message.\<close>

definition filled_form :: "string \<Rightarrow> string \<Rightarrow> string \<Rightarrow> string \<Rightarrow> string \<Rightarrow> input_el" where
  "filled_form name email subject body fieldId =
     (if fieldId = ''senderName'' then blank_input name
      else if fieldId = ''senderEmail'' then blank_input email
      else if fieldId = ''subject'' then blank_input subject
      else if fieldId = ''message'' then blank_input body
      else blank_input [])"

definition example_page :: "(string \<Rightarrow> input_el) \<Rightarrow> stored option \<Rightarrow> page" where
  "example_page form item =
     \<lparr> inputs = form, activeElement = None,
       formStatus_className = ''form-status'', formStatus_textContent = [],
       submitBtn_disabled = False, submitBtn_textContent = ''Send Message'',
       body_classList = {}, timers = [],
       storage = \<lparr> contactMessages = item, theme = None \<rparr> \<rparr>"

section \<open>Trimming\<close>

lemma dropWhile_prefix_all: "\<forall>c\<in>set p. P c \<Longrightarrow> dropWhile P (p @ v) = dropWhile P v"
  by (induction p) auto

lemma dropWhile_append_keep:
  "\<not> (\<forall>c\<in>set v. P c) \<Longrightarrow> dropWhile P (v @ q) = dropWhile P v @ q"
  by (induction v) auto

lemma trim_all_space:
  assumes "\<forall>c\<in>set s. isWhiteSpace c"
  shows "trim s = []"
proof -
  from assms have front: "dropWhile isWhiteSpace s = []"
    by (simp only: dropWhile_eq_Nil_conv)
  show ?thesis unfolding trim_def front by simp
qed

text \<open>White space added in front of a value and behind it is trimmed away with the rest.\<close>

lemma trim_pad:
  assumes p: "\<forall>c\<in>set p. isWhiteSpace c" and q: "\<forall>c\<in>set q. isWhiteSpace c"
  shows "trim (p @ v @ q) = trim v"
proof (cases "\<forall>c\<in>set v. isWhiteSpace c")
  case True
  then have "\<forall>c\<in>set (p @ v @ q). isWhiteSpace c" using p q by auto
  then have "dropWhile isWhiteSpace (p @ v @ q) = []"
    by (simp only: dropWhile_eq_Nil_conv)
  moreover have "dropWhile isWhiteSpace v = []"
    using True by (simp only: dropWhile_eq_Nil_conv)
  ultimately show ?thesis by (simp only: trim_def)
next
  case False
  have "dropWhile isWhiteSpace (p @ v @ q) = dropWhile isWhiteSpace (v @ q)"
    using p by (rule dropWhile_prefix_all)
  also have "\<dots> = dropWhile isWhiteSpace v @ q"
    using False by (rule dropWhile_append_keep)
  finally have front:
    "rev (dropWhile isWhiteSpace (p @ v @ q)) = rev q @ rev (dropWhile isWhiteSpace v)"
    by simp
  have "\<forall>c\<in>set (rev q). isWhiteSpace c" using q by simp
  then have "dropWhile isWhiteSpace (rev q @ rev (dropWhile isWhiteSpace v))
               = dropWhile isWhiteSpace (rev (dropWhile isWhiteSpace v))"
    by (rule dropWhile_prefix_all)
  then show ?thesis by (simp only: trim_def front)
qed

section \<open>The field validator\<close>

lemma configured_rules:
  "validationRules fieldId = Some r \<Longrightarrow>
     required r \<and> minLength r \<noteq> Some 0 \<and> maxLength r \<noteq> Some 0"
  by (auto simp: validationRules_def senderName_rules_def senderEmail_rules_def
      subject_rules_def message_rules_def split: if_splits)

text \<open>
  With bounds that are not 0, the chain of checks in \<open>validateField\<close> is the verdict of
  the first failing rule.
\<close>

lemma validate_rules_eq:
  assumes "minLength r \<noteq> Some 0" and "maxLength r \<noteq> Some 0"
  shows "(let trimmedValue = trim value in
           if required r \<and> trimmedValue = [] then
             \<lparr> isValid = False, errorMessage = msg_required (errorMessages r) \<rparr>
           else if (case minLength r of None \<Rightarrow> False
                    | Some n \<Rightarrow> n \<noteq> 0 \<and> length trimmedValue < n) then
             \<lparr> isValid = False, errorMessage = msg_minLength (errorMessages r) \<rparr>
           else if (case maxLength r of None \<Rightarrow> False
                    | Some n \<Rightarrow> n \<noteq> 0 \<and> length trimmedValue > n) then
             \<lparr> isValid = False, errorMessage = msg_maxLength (errorMessages r) \<rparr>
           else if (case pattern r of None \<Rightarrow> False
                    | Some re \<Rightarrow> \<not> test re trimmedValue) then
             \<lparr> isValid = False, errorMessage = msg_pattern (errorMessages r) \<rparr>
           else \<lparr> isValid = True, errorMessage = Some [] \<rparr>) = spec_validate r value"
  using assms
  by (auto simp: spec_validate_def first_failing_rule_def rule_order_def Let_def
      split: option.splits)

text \<open>
  C1. For a field id that has rules in the table, \<open>validateField\<close> gives the verdict of
  the first rule that fails when the rules are tried in the order required, minimum
  length, maximum length, pattern, each on the trimmed value, with that rule's message;
  it gives "valid" when none fails. A value that is white space only fails the required
  rule.
\<close>

theorem validateField_rule_order:
  assumes "validationRules fieldId = Some r"
  shows "validateField fieldId value = spec_validate r value \<and>
         ((\<forall>c\<in>set value. isWhiteSpace c) \<longrightarrow>
            validateField fieldId value =
              \<lparr> isValid = False, errorMessage = msg_required (errorMessages r) \<rparr>)"
proof -
  have req: "required r" and mn: "minLength r \<noteq> Some 0" and mx: "maxLength r \<noteq> Some 0"
    using configured_rules [OF assms] by simp_all
  have "validateField fieldId value = spec_validate r value"
    using validate_rules_eq [OF mn mx] assms
    by (simp add: validateField_def)
  moreover have "(\<forall>c\<in>set value. isWhiteSpace c) \<longrightarrow>
            validateField fieldId value =
              \<lparr> isValid = False, errorMessage = msg_required (errorMessages r) \<rparr>"
    using assms req by (simp add: validateField_def trim_all_space)
  ultimately show ?thesis by blast
qed

theorem validateField_rule_order_witness:
  "validationRules ''senderEmail'' = Some senderEmail_rules \<and>
   validateField ''senderEmail'' (of_ascii '' a@b '') =
     spec_validate senderEmail_rules (of_ascii '' a@b '') \<and>
   first_failing_rule senderEmail_rules (of_ascii '' a@b '') = Some Pattern \<and>
   validateField ''senderEmail'' (of_ascii ''  '') =
     \<lparr> isValid = False, errorMessage = Some ''Please enter your email address'' \<rparr>"
proof -
  have h: "validationRules ''senderEmail'' = Some senderEmail_rules"
    by (simp add: validationRules_def)
  have ws: "\<forall>c\<in>set (of_ascii ''  ''). isWhiteSpace c"
    by (simp add: of_ascii_def isWhiteSpace_def)
  have ff: "first_failing_rule senderEmail_rules (of_ascii '' a@b '') = Some Pattern"
    by (simp add: first_failing_rule_def rule_order_def senderEmail_rules_def trim_def
        of_ascii_def isWhiteSpace_def test_def emailPattern_def Plus_def notSpaceOrAt_def)
  have a: "validateField ''senderEmail'' (of_ascii '' a@b '') =
             spec_validate senderEmail_rules (of_ascii '' a@b '')"
    using validateField_rule_order [OF h, of "of_ascii '' a@b ''"] by blast
  have "validateField ''senderEmail'' (of_ascii ''  '') =
          \<lparr> isValid = False, errorMessage = msg_required (errorMessages senderEmail_rules) \<rparr>"
    using validateField_rule_order [OF h, of "of_ascii ''  ''"] ws by blast
  then have b: "validateField ''senderEmail'' (of_ascii ''  '') =
     \<lparr> isValid = False, errorMessage = Some ''Please enter your email address'' \<rparr>"
    by (simp add: senderEmail_rules_def)
  show ?thesis using h a ff b by blast
qed

text \<open>
  C7. The subject is judged valid exactly when its trimmed length is between 3 and 200,
  both included; so it is valid for every such length and invalid for the lengths 2 and
  201.
\<close>

theorem subject_length_bounds:
  "isValid (validateField ''subject'' value) =
     (3 \<le> length (trim value) \<and> length (trim value) \<le> 200) \<and>
   (3 \<le> length (trim value) \<and> length (trim value) \<le> 200 \<longrightarrow>
      isValid (validateField ''subject'' value)) \<and>
   (length (trim value) = 2 \<or> length (trim value) = 201 \<longrightarrow>
      \<not> isValid (validateField ''subject'' value))"
proof -
  let ?n = "length (trim value)"
  have verdict: "isValid (validateField ''subject'' value) = (3 \<le> ?n \<and> ?n \<le> 200)"
  proof (cases "trim value = []")
    case True
    then show ?thesis
      by (simp add: validateField_def validationRules_def subject_rules_def)
  next
    case False
    then show ?thesis
      by (auto simp: validateField_def validationRules_def subject_rules_def Let_def)
  qed
  moreover have "?n = 2 \<or> ?n = 201 \<longrightarrow> \<not> isValid (validateField ''subject'' value)"
    unfolding verdict by arith
  ultimately show ?thesis by blast
qed

theorem subject_length_bounds_witness:
  "length (trim (of_ascii ''  abc '')) = 3 \<and>
   isValid (validateField ''subject'' (of_ascii ''  abc '')) \<and>
   length (trim (replicate 200 0x61)) = 200 \<and>
   isValid (validateField ''subject'' (replicate 200 0x61)) \<and>
   length (trim (of_ascii '' ab  '')) = 2 \<and>
   \<not> isValid (validateField ''subject'' (of_ascii '' ab  '')) \<and>
   length (trim (replicate 201 0x61)) = 201 \<and>
   \<not> isValid (validateField ''subject'' (replicate 201 0x61))"
proof -
  have a: "length (trim (of_ascii ''  abc '')) = 3" "length (trim (of_ascii '' ab  '')) = 2"
    by (simp_all add: trim_def of_ascii_def isWhiteSpace_def)
  have r: "\<And>n. trim (replicate n 0x61) = replicate n 0x61"
  proof -
    fix n :: nat
    have "dropWhile isWhiteSpace (replicate n (0x61 :: code_unit)) = replicate n 0x61"
      by (cases n) (simp_all add: isWhiteSpace_def)
    then show "trim (replicate n 0x61) = replicate n 0x61" by (simp add: trim_def)
  qed
  have b: "length (trim (replicate 200 0x61)) = 200" "length (trim (replicate 201 0x61)) = 201"
    by (simp_all add: r)
  show ?thesis
    using a b subject_length_bounds [of "of_ascii ''  abc ''"]
      subject_length_bounds [of "replicate 200 0x61"]
      subject_length_bounds [of "of_ascii '' ab  ''"]
      subject_length_bounds [of "replicate 201 0x61"]
    by simp
qed

text \<open>
  C10. White space added in front of a value and behind it does not change what
  \<open>validateField\<close> returns, for any field id: every check, the pattern check of the
  address field included, reads the trimmed value.
\<close>

theorem validateField_ignores_padding:
  assumes "\<forall>c\<in>set p. isWhiteSpace c" and "\<forall>c\<in>set q. isWhiteSpace c"
  shows "validateField fieldId (p @ value @ q) = validateField fieldId value \<and>
         isValid (validateField ''senderEmail'' (p @ value @ q)) =
           (trim value \<noteq> [] \<and> test emailPattern (trim value))"
proof -
  have t: "trim (p @ value @ q) = trim value" using assms by (rule trim_pad)
  have "validateField fieldId (p @ value @ q) = validateField fieldId value"
    unfolding validateField_def t by (rule refl)
  moreover have "isValid (validateField ''senderEmail'' (p @ value @ q)) =
           (trim value \<noteq> [] \<and> test emailPattern (trim value))"
    by (simp add: validateField_def validationRules_def senderEmail_rules_def t Let_def)
  ultimately show ?thesis by blast
qed

theorem validateField_ignores_padding_witness:
  "list_all isWhiteSpace [0x20, 0x09] \<and> list_all isWhiteSpace [0x0A, 0x3000] \<and>
   validateField ''senderEmail'' ([0x20, 0x09] @ of_ascii ''a@b.co'' @ [0x0A, 0x3000]) =
     validateField ''senderEmail'' (of_ascii ''a@b.co'') \<and>
   isValid (validateField ''senderEmail'' ([0x20, 0x09] @ of_ascii ''a@b.co'' @ [0x0A, 0x3000]))"
proof -
  have p: "\<forall>c\<in>set [0x20, 0x09 :: code_unit]. isWhiteSpace c" by (simp add: isWhiteSpace_def)
  have q: "\<forall>c\<in>set [0x0A, 0x3000 :: code_unit]. isWhiteSpace c" by (simp add: isWhiteSpace_def)
  have t: "trim (of_ascii ''a@b.co'') = of_ascii ''a@b.co''"
    by (simp add: trim_def of_ascii_def isWhiteSpace_def)
  have m: "test emailPattern (of_ascii ''a@b.co'')"
    by (simp add: test_def emailPattern_def Plus_def of_ascii_def notSpaceOrAt_def
        isWhiteSpace_def)
  have n: "of_ascii ''a@b.co'' \<noteq> []" by (simp add: of_ascii_def)
  note T = validateField_ignores_padding [OF p q, of "''senderEmail''" "of_ascii ''a@b.co''"]
  have a: "validateField ''senderEmail'' ([0x20, 0x09] @ of_ascii ''a@b.co'' @ [0x0A, 0x3000]) =
     validateField ''senderEmail'' (of_ascii ''a@b.co'')"
    using T by blast
  have "isValid (validateField ''senderEmail'' ([0x20, 0x09] @ of_ascii ''a@b.co'' @ [0x0A, 0x3000])) =
          (trim (of_ascii ''a@b.co'') \<noteq> [] \<and> test emailPattern (trim (of_ascii ''a@b.co'')))"
    using T by blast
  then have b:
    "isValid (validateField ''senderEmail'' ([0x20, 0x09] @ of_ascii ''a@b.co'' @ [0x0A, 0x3000]))"
    unfolding t using m n by blast
  have "list_all isWhiteSpace [0x20, 0x09]" "list_all isWhiteSpace [0x0A, 0x3000]"
    using p q by simp_all
  then show ?thesis using a b by blast
qed

section \<open>The message store\<close>

lemma save_array:
  "holds_array st xs \<Longrightarrow>
     saveMessageToStorage m st = Inr (st\<lparr> contactMessages := Some (JsonText (JArr (m # xs))) \<rparr>)"
  by (auto simp: holds_array_def saveMessageToStorage_def JSON_parse_def or_empty_def
      JSON_stringify_def)

lemma get_array: "holds_array st xs \<Longrightarrow> getMessagesFromStorage st = Inr (JArr xs)"
  by (auto simp: holds_array_def getMessagesFromStorage_def JSON_parse_def or_empty_def)

lemma saveAll_array:
  "holds_array st xs \<Longrightarrow>
     saveAll ms st =
       Inr (if ms = [] then st
            else st\<lparr> contactMessages := Some (JsonText (JArr (rev ms @ xs))) \<rparr>)"
proof (induction ms arbitrary: st xs)
  case Nil
  then show ?case by simp
next
  case (Cons m ms)
  let ?st' = "st\<lparr> contactMessages := Some (JsonText (JArr (m # xs))) \<rparr>"
  have s: "saveMessageToStorage m st = Inr ?st'" using Cons.prems by (rule save_array)
  have h: "holds_array ?st' (m # xs)" by (simp add: holds_array_def)
  show ?case using Cons.IH [OF h] s by simp
qed

text \<open>
  C2, as the claim states it, fails: with the text \<open>{oops\<close> under the key, which is
  not JSON, \<open>getMessagesFromStorage\<close> does not return the empty sequence and
  \<open>saveMessageToStorage\<close> does not store a one-element collection; both end with the
  SyntaxError of \<open>JSON.parse\<close>.
\<close>

theorem corrupt_value_raises:
  "getMessagesFromStorage
     \<lparr> contactMessages = Some (NotJson (of_ascii ''{oops'')), theme = None \<rparr>
     = Inl SyntaxError \<and>
   getMessagesFromStorage
     \<lparr> contactMessages = Some (NotJson (of_ascii ''{oops'')), theme = None \<rparr>
     \<noteq> Inr (JArr []) \<and>
   saveMessageToStorage (message 1 ''A first message.'')
     \<lparr> contactMessages = Some (NotJson (of_ascii ''{oops'')), theme = None \<rparr>
     = Inl SyntaxError"
  by (simp add: getMessagesFromStorage_def saveMessageToStorage_def JSON_parse_def)

text \<open>
  C2, amended. When nothing is stored under the key, or the stored text denotes a falsy
  value such as \<open>null\<close>, the store is read as the empty collection:
  \<open>getMessagesFromStorage\<close> returns the empty sequence and \<open>saveMessageToStorage\<close>
  stores a one-element collection. When the stored text is not JSON, both operations end
  with a SyntaxError.
\<close>

theorem absent_value_is_empty:
  "((contactMessages st = None \<or>
     (\<exists>v. contactMessages st = Some (JsonText v) \<and> \<not> truthy v)) \<longrightarrow>
      getMessagesFromStorage st = Inr (JArr []) \<and>
      saveMessageToStorage m st = Inr (st\<lparr> contactMessages := Some (JsonText (JArr [m])) \<rparr>)) \<and>
   ((\<exists>t. contactMessages st = Some (NotJson t)) \<longrightarrow>
      getMessagesFromStorage st = Inl SyntaxError \<and>
      saveMessageToStorage m st = Inl SyntaxError)"
  by (auto simp: getMessagesFromStorage_def saveMessageToStorage_def JSON_parse_def
      or_empty_def JSON_stringify_def)

theorem absent_value_is_empty_witness:
  "getMessagesFromStorage \<lparr> contactMessages = None, theme = None \<rparr> = Inr (JArr []) \<and>
   saveMessageToStorage (JNum 1) \<lparr> contactMessages = None, theme = None \<rparr>
     = Inr \<lparr> contactMessages = Some (JsonText (JArr [JNum 1])), theme = None \<rparr> \<and>
   getMessagesFromStorage \<lparr> contactMessages = Some (JsonText JNull), theme = None \<rparr>
     = Inr (JArr []) \<and>
   getMessagesFromStorage \<lparr> contactMessages = Some (NotJson (of_ascii ''[{'')), theme = None \<rparr>
     = Inl SyntaxError"
  using absent_value_is_empty [of "\<lparr> contactMessages = None, theme = None \<rparr>" "JNum 1"]
    absent_value_is_empty [of "\<lparr> contactMessages = Some (JsonText JNull), theme = None \<rparr>" "JNum 1"]
    absent_value_is_empty
      [of "\<lparr> contactMessages = Some (NotJson (of_ascii ''[{'')), theme = None \<rparr>" "JNum 1"]
  by simp

text \<open>
  C4. On a store that holds the collection \<open>xs\<close>, appending a message and listing
  returns that message followed by \<open>xs\<close>; appending the messages \<open>ms\<close> one after the
  other and listing returns them in reverse order of insertion, newest first, followed
  by \<open>xs\<close>.
\<close>

theorem append_then_list_newest_first:
  assumes "holds_array st xs"
  shows "(\<exists>st'. saveMessageToStorage m st = Inr st' \<and>
            getMessagesFromStorage st' = Inr (JArr (m # xs))) \<and>
         (\<exists>st'. saveAll ms st = Inr st' \<and>
            getMessagesFromStorage st' = Inr (JArr (rev ms @ xs)))"
proof -
  let ?one = "st\<lparr> contactMessages := Some (JsonText (JArr (m # xs))) \<rparr>"
  have s: "saveMessageToStorage m st = Inr ?one" using assms by (rule save_array)
  have "holds_array ?one (m # xs)" by (simp add: holds_array_def)
  then have g1: "getMessagesFromStorage ?one = Inr (JArr (m # xs))" by (rule get_array)
  let ?all = "if ms = [] then st
              else st\<lparr> contactMessages := Some (JsonText (JArr (rev ms @ xs))) \<rparr>"
  have a: "saveAll ms st = Inr ?all" using assms by (rule saveAll_array)
  have "holds_array ?all (rev ms @ xs)" using assms by (simp add: holds_array_def)
  then have g2: "getMessagesFromStorage ?all = Inr (JArr (rev ms @ xs))" by (rule get_array)
  show ?thesis using s g1 a g2 by blast
qed

theorem append_then_list_newest_first_witness:
  "holds_array
     \<lparr> contactMessages = Some (JsonText (JArr [message 1 ''The first message.''])), theme = None \<rparr>
     [message 1 ''The first message.''] \<and>
   (\<exists>st'. saveAll [message 2 ''The second message.'', message 3 ''The third message.'']
        \<lparr> contactMessages = Some (JsonText (JArr [message 1 ''The first message.''])),
          theme = None \<rparr> = Inr st' \<and>
      getMessagesFromStorage st' =
        Inr (JArr [message 3 ''The third message.'', message 2 ''The second message.'',
                   message 1 ''The first message.'']))"
proof -
  let ?st = "\<lparr> contactMessages = Some (JsonText (JArr [message 1 ''The first message.''])),
               theme = None \<rparr>"
  have h: "holds_array ?st [message 1 ''The first message.'']"
    by (simp add: holds_array_def)
  show ?thesis
    using h append_then_list_newest_first
      [OF h, of "message 2 ''The second message.''"
         "[message 2 ''The second message.'', message 3 ''The third message.'']"]
    by simp
qed

lemma id_differs_has_id: "msg \<noteq> JNull \<Longrightarrow> id_differs i msg = Inr (\<not> has_id i msg)"
  by (cases msg) (simp_all add: id_differs_def has_id_def)

lemma filter_array_no_null:
  "JNull \<notin> set xs \<Longrightarrow>
     filter_array (id_differs i) xs = Inr (filter (\<lambda>m. \<not> has_id i m) xs)"
  by (induction xs) (auto simp: id_differs_has_id)

lemma deleteMessage_array:
  assumes "holds_array st xs" and "JNull \<notin> set xs"
  shows "deleteMessage i st =
           Inr (st\<lparr> contactMessages :=
                  Some (JsonText (JArr (filter (\<lambda>m. \<not> has_id i m) xs))) \<rparr>)"
  using get_array [OF assms(1)] filter_array_no_null [OF assms(2)]
  by (simp add: deleteMessage_def JSON_stringify_def)

text \<open>
  C3, as the claim states it, fails: from a collection of three entries, two of which
  have the id 7, \<open>deleteMessage 7\<close> removes both, so that one entry is left and not
  two.
\<close>

theorem deleteMessage_duplicate_ids:
  "deleteMessage 7
     \<lparr> contactMessages =
         Some (JsonText (JArr [message 7 ''The second message.'', message 8 ''Another message.'',
                               message 7 ''The first message.''])),
       theme = None \<rparr>
   = Inr \<lparr> contactMessages = Some (JsonText (JArr [message 8 ''Another message.''])),
           theme = None \<rparr> \<and>
   length [message 8 ''Another message.''] + 1 \<noteq>
     length [message 7 ''The second message.'', message 8 ''Another message.'',
             message 7 ''The first message.'']"
  by (simp add: deleteMessage_def getMessagesFromStorage_def JSON_parse_def or_empty_def
      JSON_stringify_def id_differs_def message_def)

text \<open>
  C3, amended. On a store that holds the collection \<open>xs\<close>, none of whose entries is
  \<open>null\<close>, \<open>deleteMessage\<close> removes every entry that has the id and leaves the other
  entries in their order. If no entry has the id the collection is unchanged, and if
  exactly one entry has it exactly that entry is removed.
\<close>

theorem deleteMessage_removes_matching:
  assumes "holds_array st xs" and "JNull \<notin> set xs"
  shows "\<exists>st'. deleteMessage i st = Inr st' \<and>
           getMessagesFromStorage st' = Inr (JArr (filter (\<lambda>m. \<not> has_id i m) xs)) \<and>
           ((\<forall>m\<in>set xs. \<not> has_id i m) \<longrightarrow> getMessagesFromStorage st' = Inr (JArr xs)) \<and>
           (\<forall>pre m post.
              xs = pre @ m # post \<and> has_id i m \<and> (\<forall>x\<in>set (pre @ post). \<not> has_id i x) \<longrightarrow>
              getMessagesFromStorage st' = Inr (JArr (pre @ post)))"
proof -
  let ?ys = "filter (\<lambda>m. \<not> has_id i m) xs"
  let ?st' = "st\<lparr> contactMessages := Some (JsonText (JArr ?ys)) \<rparr>"
  have d: "deleteMessage i st = Inr ?st'" using assms by (rule deleteMessage_array)
  have "holds_array ?st' ?ys" by (simp add: holds_array_def)
  then have g: "getMessagesFromStorage ?st' = Inr (JArr ?ys)" by (rule get_array)
  have none: "(\<forall>m\<in>set xs. \<not> has_id i m) \<longrightarrow> ?ys = xs" by simp
  have one: "\<forall>pre m post.
      xs = pre @ m # post \<and> has_id i m \<and> (\<forall>x\<in>set (pre @ post). \<not> has_id i x) \<longrightarrow>
      ?ys = pre @ post"
    by auto
  show ?thesis using d g none one by auto
qed

theorem deleteMessage_removes_matching_witness:
  "holds_array
     \<lparr> contactMessages =
         Some (JsonText (JArr [message 3 ''The third message.'', message 2 ''The second message.'',
                               message 1 ''The first message.''])),
       theme = None \<rparr>
     [message 3 ''The third message.'', message 2 ''The second message.'',
      message 1 ''The first message.''] \<and>
   JNull \<notin> set [message 3 ''The third message.'', message 2 ''The second message.'',
                 message 1 ''The first message.''] \<and>
   (\<exists>st'. deleteMessage 2
        \<lparr> contactMessages =
            Some (JsonText (JArr [message 3 ''The third message.'',
                                  message 2 ''The second message.'',
                                  message 1 ''The first message.''])),
          theme = None \<rparr> = Inr st' \<and>
      getMessagesFromStorage st' =
        Inr (JArr [message 3 ''The third message.'', message 1 ''The first message.'']))"
proof -
  let ?xs = "[message 3 ''The third message.'', message 2 ''The second message.'',
              message 1 ''The first message.'']"
  let ?st = "\<lparr> contactMessages = Some (JsonText (JArr ?xs)), theme = None \<rparr>"
  have h: "holds_array ?st ?xs" by (simp add: holds_array_def)
  have n: "JNull \<notin> set ?xs" by (simp add: message_def)
  have f: "filter (\<lambda>m. \<not> has_id 2 m) ?xs =
             [message 3 ''The third message.'', message 1 ''The first message.'']"
    by (simp add: has_id_def message_def)
  show ?thesis using deleteMessage_removes_matching [OF h n, of 2] f h n by auto
qed

section \<open>Whole-form validation\<close>

text \<open>What \<open>showFieldError\<close> and \<open>clearFieldError\<close> leave as it was.\<close>

lemma showFieldError_frame:
  "input_value (inputs (showFieldError f msg pg) g) = input_value (inputs pg g)"
  "g \<noteq> f \<Longrightarrow> inputs (showFieldError f msg pg) g = inputs pg g"
  "activeElement (showFieldError f msg pg) = activeElement pg"
  "storage (showFieldError f msg pg) = storage pg"
  "formStatus_className (showFieldError f msg pg) = formStatus_className pg"
  "formStatus_textContent (showFieldError f msg pg) = formStatus_textContent pg"
  "submitBtn_disabled (showFieldError f msg pg) = submitBtn_disabled pg"
  "submitBtn_textContent (showFieldError f msg pg) = submitBtn_textContent pg"
  "body_classList (showFieldError f msg pg) = body_classList pg"
  by (simp_all add: showFieldError_def Let_def split: option.splits)

lemma clearFieldError_frame:
  "input_value (inputs (clearFieldError f b pg) g) = input_value (inputs pg g)"
  "g \<noteq> f \<Longrightarrow> inputs (clearFieldError f b pg) g = inputs pg g"
  "activeElement (clearFieldError f b pg) = activeElement pg"
  "storage (clearFieldError f b pg) = storage pg"
  "formStatus_className (clearFieldError f b pg) = formStatus_className pg"
  "formStatus_textContent (clearFieldError f b pg) = formStatus_textContent pg"
  "submitBtn_disabled (clearFieldError f b pg) = submitBtn_disabled pg"
  "submitBtn_textContent (clearFieldError f b pg) = submitBtn_textContent pg"
  "body_classList (clearFieldError f b pg) = body_classList pg"
  by (simp_all add: clearFieldError_def Let_def split: option.splits)

lemma showFieldError_shows: "shows_error (inputs (showFieldError f msg pg) f) msg"
  by (simp add: showFieldError_def shows_error_def Let_def split: option.splits)

lemma clearFieldError_clears: "''error'' \<notin> classList (inputs (clearFieldError f True pg) f)"
  by (simp add: clearFieldError_def Let_def split: option.splits)

lemma same_frame_refl: "same_frame pg pg"
  by (simp add: same_frame_def)

lemma same_frame_trans: "same_frame a b \<Longrightarrow> same_frame b c \<Longrightarrow> same_frame a c"
  by (simp add: same_frame_def)

lemma same_frame_fails: "same_frame pg pg' \<Longrightarrow> field_fails pg' f = field_fails pg f"
  by (simp add: same_frame_def field_fails_def)

lemma validateForm_field_step:
  "validateForm_field f (pg, ok, first) =
     ((if field_fails pg f
       then showFieldError f (errorMessage (validateField f (input_value (inputs pg f)))) pg
       else clearFieldError f True pg),
      ok \<and> \<not> field_fails pg f,
      (if first = None \<and> field_fails pg f then Some f else first))"
  by (simp add: validateForm_field_def field_fails_def Let_def)

lemma step_frame: "same_frame pg (fst (validateForm_field f (pg, ok, first)))"
  by (simp add: validateForm_field_step same_frame_def showFieldError_frame
      clearFieldError_frame)

lemma step_others:
  "g \<noteq> f \<Longrightarrow> inputs (fst (validateForm_field f (pg, ok, first))) g = inputs pg g"
  by (simp add: validateForm_field_step showFieldError_frame clearFieldError_frame)

text \<open>
  The loop over a list of distinct field ids: each field is judged on the value it had
  at the start, and what is written for one field is not touched again.
\<close>

lemma fold_fields:
  assumes "distinct fs"
    and "fold validateForm_field fs (pg, ok, first) = (pg', ok', first')"
  shows "same_frame pg pg' \<and>
         (\<forall>g. g \<notin> set fs \<longrightarrow> inputs pg' g = inputs pg g) \<and>
         ok' = (ok \<and> (\<forall>f\<in>set fs. \<not> field_fails pg f)) \<and>
         first' = (case first of Some x \<Rightarrow> Some x | None \<Rightarrow> find (field_fails pg) fs) \<and>
         (\<forall>f\<in>set fs. field_fails pg f \<longrightarrow>
            shows_error (inputs pg' f)
              (errorMessage (validateField f (input_value (inputs pg f))))) \<and>
         (\<forall>f\<in>set fs. \<not> field_fails pg f \<longrightarrow> ''error'' \<notin> classList (inputs pg' f))"
  using assms
proof (induction fs arbitrary: pg ok first)
  case Nil
  then show ?case by (simp add: same_frame_refl split: option.splits)
next
  case (Cons f fs)
  obtain pg1 ok1 first1 where s: "validateForm_field f (pg, ok, first) = (pg1, ok1, first1)"
    by (cases "validateForm_field f (pg, ok, first)") auto
  have pg1: "pg1 = (if field_fails pg f
       then showFieldError f (errorMessage (validateField f (input_value (inputs pg f)))) pg
       else clearFieldError f True pg)"
    and ok1: "ok1 = (ok \<and> \<not> field_fails pg f)"
    and first1: "first1 = (if first = None \<and> field_fails pg f then Some f else first)"
    using s by (simp_all add: validateForm_field_step)
  have fr1: "same_frame pg pg1" using step_frame [of pg f ok first] s by simp
  have oth1: "\<And>g. g \<noteq> f \<Longrightarrow> inputs pg1 g = inputs pg g"
    using step_others [of _ f pg ok first] s by simp
  have ff: "\<And>g. field_fails pg1 g = field_fails pg g" using fr1 by (rule same_frame_fails)
  have iv: "\<And>g. input_value (inputs pg1 g) = input_value (inputs pg g)"
    using fr1 by (simp add: same_frame_def)
  have d: "distinct fs" and nf: "f \<notin> set fs" using Cons.prems(1) by simp_all
  have r: "fold validateForm_field fs (pg1, ok1, first1) = (pg', ok', first')"
    using Cons.prems(2) s by simp
  have ffeq: "field_fails pg1 = field_fails pg" by (rule ext) (rule ff)
  note IH = Cons.IH [OF d r, unfolded ffeq iv]
  have at_f: "inputs pg' f = inputs pg1 f" using IH nf by blast
  have A: "same_frame pg pg'" using fr1 IH same_frame_trans by blast
  have B: "\<forall>g. g \<notin> set (f # fs) \<longrightarrow> inputs pg' g = inputs pg g" using IH oth1 by simp
  have C: "ok' = (ok \<and> (\<forall>g\<in>set (f # fs). \<not> field_fails pg g))" using IH ok1 ff by auto
  have D: "first' = (case first of Some x \<Rightarrow> Some x | None \<Rightarrow> find (field_fails pg) (f # fs))"
    using IH first1 ff by (auto split: option.splits)
  have E: "\<forall>g\<in>set (f # fs). field_fails pg g \<longrightarrow>
            shows_error (inputs pg' g)
              (errorMessage (validateField g (input_value (inputs pg g))))"
  proof
    fix g assume g: "g \<in> set (f # fs)"
    show "field_fails pg g \<longrightarrow>
            shows_error (inputs pg' g)
              (errorMessage (validateField g (input_value (inputs pg g))))"
    proof (cases "g = f")
      case True
      then show ?thesis using at_f pg1 showFieldError_shows by simp
    next
      case False
      then have "g \<in> set fs" using g by simp
      then show ?thesis using IH ff iv by simp
    qed
  qed
  have F: "\<forall>g\<in>set (f # fs). \<not> field_fails pg g \<longrightarrow> ''error'' \<notin> classList (inputs pg' g)"
  proof
    fix g assume g: "g \<in> set (f # fs)"
    show "\<not> field_fails pg g \<longrightarrow> ''error'' \<notin> classList (inputs pg' g)"
    proof (cases "g = f")
      case True
      then show ?thesis using at_f pg1 clearFieldError_clears by simp
    next
      case False
      then have "g \<in> set fs" using g by simp
      then show ?thesis using IH ff by simp
    qed
  qed
  show ?case using A B C D E F by blast
qed

lemma distinct_fields: "distinct fields"
  by (simp add: fields_def)

text \<open>The verdict of \<open>validateForm\<close> and what it leaves as it was.\<close>

lemma validateForm_verdict:
  assumes "validateForm pg = (pg', ok)"
  shows "ok = (\<forall>f\<in>set fields. isValid (validateField f (input_value (inputs pg f))))"
    and "storage pg' = storage pg"
    and "submitBtn_disabled pg' = submitBtn_disabled pg"
    and "\<And>g. input_value (inputs pg' g) = input_value (inputs pg g)"
proof -
  obtain pg1 ok1 first1
    where f: "fold validateForm_field fields (pg, True, None) = (pg1, ok1, first1)"
    by (cases "fold validateForm_field fields (pg, True, None)") auto
  note P = fold_fields [OF distinct_fields f]
  have ok: "ok = ok1"
    and pg': "pg' = (case first1 of None \<Rightarrow> pg1 | Some x \<Rightarrow> pg1\<lparr> activeElement := Some x \<rparr>)"
    using assms f by (simp_all add: validateForm_def)
  have fr: "same_frame pg pg1" using P by blast
  show "ok = (\<forall>f\<in>set fields. isValid (validateField f (input_value (inputs pg f))))"
    using P ok by (simp add: field_fails_def)
  show "storage pg' = storage pg" "submitBtn_disabled pg' = submitBtn_disabled pg"
    "\<And>g. input_value (inputs pg' g) = input_value (inputs pg g)"
    using fr pg' by (simp_all add: same_frame_def split: option.splits)
qed

text \<open>Validation of the two example forms.\<close>

lemmas eval_validate =
  field_fails_def validateField_def validationRules_def senderName_rules_def
  senderEmail_rules_def subject_rules_def message_rules_def trim_def of_ascii_def
  isWhiteSpace_def test_def emailPattern_def Plus_def notSpaceOrAt_def
  example_page_def filled_form_def blank_input_def

lemma good_form_passes:
  "\<forall>f\<in>set fields. \<not> field_fails
     (example_page
        (filled_form ''Jo'' ''jo@x.com'' ''Hi there'' ''This is a sufficiently long message.'')
        item) f"
  unfolding fields_def by (simp add: eval_validate)

lemma bad_form_fails:
  "\<not> field_fails (example_page (filled_form ''Jo'' ''not-an-email'' ''Hi'' ''short'') item)
       ''senderName''"
  "field_fails (example_page (filled_form ''Jo'' ''not-an-email'' ''Hi'' ''short'') item)
     ''senderEmail''"
  "field_fails (example_page (filled_form ''Jo'' ''not-an-email'' ''Hi'' ''short'') item)
     ''subject''"
  "field_fails (example_page (filled_form ''Jo'' ''not-an-email'' ''Hi'' ''short'') item)
     ''message''"
  by (simp_all add: eval_validate)

lemma bad_form_messages:
  "errorMessage (validateField ''senderEmail'' (of_ascii ''not-an-email'')) =
     Some ''Please enter a valid email address (e.g., name@example.com)''"
  "errorMessage (validateField ''subject'' (of_ascii ''Hi'')) =
     Some ''Subject must be at least 3 characters''"
  "errorMessage (validateField ''message'' (of_ascii ''short'')) =
     Some ''Message must be at least 10 characters''"
  by (simp_all add: eval_validate)

text \<open>
  C6. \<open>validateForm\<close> runs \<open>validateField\<close> on each of the four fields senderName,
  senderEmail, subject and message, and returns true exactly when none of them fails.
  Every failing field shows its failure indicators afterwards, every passing field has
  no error class, and the focus is on the first failing field in that order (it stays
  where it was when no field fails).
\<close>

theorem validateForm_all_fields:
  assumes "validateForm pg = (pg', ok)"
  shows "fields = [''senderName'', ''senderEmail'', ''subject'', ''message''] \<and>
         ok = (\<forall>f\<in>set fields. isValid (validateField f (input_value (inputs pg f)))) \<and>
         (\<forall>f\<in>set fields. field_fails pg f \<longrightarrow>
            shows_error (inputs pg' f)
              (errorMessage (validateField f (input_value (inputs pg f))))) \<and>
         (\<forall>f\<in>set fields. \<not> field_fails pg f \<longrightarrow> ''error'' \<notin> classList (inputs pg' f)) \<and>
         activeElement pg' =
           (case find (field_fails pg) fields of None \<Rightarrow> activeElement pg | Some f \<Rightarrow> Some f)"
proof -
  obtain pg1 ok1 first1
    where f: "fold validateForm_field fields (pg, True, None) = (pg1, ok1, first1)"
    by (cases "fold validateForm_field fields (pg, True, None)") auto
  note P = fold_fields [OF distinct_fields f]
  have ok: "ok = ok1"
    and pg': "pg' = (case first1 of None \<Rightarrow> pg1 | Some x \<Rightarrow> pg1\<lparr> activeElement := Some x \<rparr>)"
    using assms f by (simp_all add: validateForm_def)
  have inp: "inputs pg' = inputs pg1" using pg' by (simp split: option.splits)
  have act: "activeElement pg' = (case first1 of None \<Rightarrow> activeElement pg1 | Some x \<Rightarrow> Some x)"
    using pg' by (simp split: option.splits)
  have a1: "activeElement pg1 = activeElement pg" using P by (simp add: same_frame_def)
  have "fields = [''senderName'', ''senderEmail'', ''subject'', ''message'']"
    by (rule fields_def)
  moreover have "ok = (\<forall>f\<in>set fields. isValid (validateField f (input_value (inputs pg f))))"
    using P ok by (simp add: field_fails_def)
  moreover have "\<forall>f\<in>set fields. field_fails pg f \<longrightarrow>
            shows_error (inputs pg' f)
              (errorMessage (validateField f (input_value (inputs pg f))))"
    using P inp by simp
  moreover have "\<forall>f\<in>set fields. \<not> field_fails pg f \<longrightarrow> ''error'' \<notin> classList (inputs pg' f)"
    using P inp by simp
  moreover have "activeElement pg' =
           (case find (field_fails pg) fields of None \<Rightarrow> activeElement pg | Some f \<Rightarrow> Some f)"
    using P act a1 by (simp split: option.splits)
  ultimately show ?thesis by blast
qed

theorem validateForm_all_fields_witness:
  "\<not> snd (validateForm (example_page (filled_form ''Jo'' ''not-an-email'' ''Hi'' ''short'') None)) \<and>
   activeElement
     (fst (validateForm (example_page (filled_form ''Jo'' ''not-an-email'' ''Hi'' ''short'') None)))
     = Some ''senderEmail'' \<and>
   shows_error
     (inputs (fst (validateForm (example_page (filled_form ''Jo'' ''not-an-email'' ''Hi'' ''short'') None)))
        ''senderEmail'')
     (Some ''Please enter a valid email address (e.g., name@example.com)'') \<and>
   shows_error
     (inputs (fst (validateForm (example_page (filled_form ''Jo'' ''not-an-email'' ''Hi'' ''short'') None)))
        ''subject'')
     (Some ''Subject must be at least 3 characters'') \<and>
   shows_error
     (inputs (fst (validateForm (example_page (filled_form ''Jo'' ''not-an-email'' ''Hi'' ''short'') None)))
        ''message'')
     (Some ''Message must be at least 10 characters'') \<and>
   ''error'' \<notin> classList
     (inputs (fst (validateForm (example_page (filled_form ''Jo'' ''not-an-email'' ''Hi'' ''short'') None)))
        ''senderName'')"
proof -
  let ?P = "example_page (filled_form ''Jo'' ''not-an-email'' ''Hi'' ''short'') None"
  have v: "validateForm ?P = (fst (validateForm ?P), snd (validateForm ?P))" by simp
  have iv: "input_value (inputs ?P ''senderEmail'') = of_ascii ''not-an-email''"
    "input_value (inputs ?P ''subject'') = of_ascii ''Hi''"
    "input_value (inputs ?P ''message'') = of_ascii ''short''"
    by (simp_all add: example_page_def filled_form_def blank_input_def)
  have fnd: "find (field_fails ?P) fields = Some ''senderEmail''"
    unfolding fields_def using bad_form_fails [of None] by simp
  have mem: "''senderName'' \<in> set fields" "''senderEmail'' \<in> set fields"
    "''subject'' \<in> set fields" "''message'' \<in> set fields"
    by (simp_all add: fields_def)
  note T = validateForm_all_fields [OF v]
  have "snd (validateForm ?P) =
          (\<forall>f\<in>set fields. isValid (validateField f (input_value (inputs ?P f))))"
    using T by blast
  then have a: "\<not> snd (validateForm ?P)"
    using bad_form_fails(2) [of None] mem(2) unfolding field_fails_def by blast
  have b: "activeElement (fst (validateForm ?P)) = Some ''senderEmail''"
    using T fnd by simp
  have sh: "\<forall>f\<in>set fields. field_fails ?P f \<longrightarrow>
            shows_error (inputs (fst (validateForm ?P)) f)
              (errorMessage (validateField f (input_value (inputs ?P f))))"
    using T by blast
  have c: "shows_error (inputs (fst (validateForm ?P)) ''senderEmail'')
     (Some ''Please enter a valid email address (e.g., name@example.com)'')"
    using sh mem(2) bad_form_fails(2) [of None] iv(1) bad_form_messages(1) by fastforce
  have d: "shows_error (inputs (fst (validateForm ?P)) ''subject'')
     (Some ''Subject must be at least 3 characters'')"
    using sh mem(3) bad_form_fails(3) [of None] iv(2) bad_form_messages(2) by fastforce
  have e: "shows_error (inputs (fst (validateForm ?P)) ''message'')
     (Some ''Message must be at least 10 characters'')"
    using sh mem(4) bad_form_fails(4) [of None] iv(3) bad_form_messages(3) by fastforce
  have "\<forall>f\<in>set fields. \<not> field_fails ?P f \<longrightarrow>
          ''error'' \<notin> classList (inputs (fst (validateForm ?P)) f)"
    using T by blast
  then have f: "''error'' \<notin> classList (inputs (fst (validateForm ?P)) ''senderName'')"
    using mem(1) bad_form_fails(1) [of None] by blast
  show ?thesis using a b c d e f by blast
qed

section \<open>Submission\<close>

lemma handleSubmit_storage: "storage (fst (handleSubmit now isoDate pg)) = storage pg"
proof -
  let ?pg1 = "pg\<lparr> formStatus_className := ''form-status'', formStatus_textContent := [] \<rparr>"
  obtain pg2 ok where v: "validateForm ?pg1 = (pg2, ok)" by (cases "validateForm ?pg1") auto
  have "storage pg2 = storage ?pg1" using v by (rule validateForm_verdict)
  then show ?thesis using v by (simp add: handleSubmit_def Let_def)
qed

lemma handleSubmit_started:
  assumes "handleSubmit now isoDate pg = (pg1, Some (formData, templateParams))"
  shows "submitBtn_disabled pg1"
    and "formData = JObj
           [(of_ascii ''id'', JNum now),
            (of_ascii ''name'', JStr (trim (input_value (inputs pg ''senderName'')))),
            (of_ascii ''email'', JStr (trim (input_value (inputs pg ''senderEmail'')))),
            (of_ascii ''subject'', JStr (trim (input_value (inputs pg ''subject'')))),
            (of_ascii ''message'', JStr (trim (input_value (inputs pg ''message'')))),
            (of_ascii ''date'', JStr isoDate)]"
    and "\<forall>f\<in>set fields. \<not> field_fails pg f"
proof -
  let ?pg1 = "pg\<lparr> formStatus_className := ''form-status'', formStatus_textContent := [] \<rparr>"
  obtain pg2 ok where v: "validateForm ?pg1 = (pg2, ok)" by (cases "validateForm ?pg1") auto
  have iv: "\<And>g. input_value (inputs pg2 g) = input_value (inputs pg g)"
    using validateForm_verdict(4) [OF v] by simp
  have ok: ok using assms v by (simp add: handleSubmit_def Let_def split: if_splits)
  show "submitBtn_disabled pg1"
    using assms v ok by (auto simp: handleSubmit_def Let_def)
  show "formData = JObj
           [(of_ascii ''id'', JNum now),
            (of_ascii ''name'', JStr (trim (input_value (inputs pg ''senderName'')))),
            (of_ascii ''email'', JStr (trim (input_value (inputs pg ''senderEmail'')))),
            (of_ascii ''subject'', JStr (trim (input_value (inputs pg ''subject'')))),
            (of_ascii ''message'', JStr (trim (input_value (inputs pg ''message'')))),
            (of_ascii ''date'', JStr isoDate)]"
    using assms v ok iv by (auto simp: handleSubmit_def Let_def)
  have "ok = (\<forall>f\<in>set fields. isValid (validateField f (input_value (inputs ?pg1 f))))"
    using v by (rule validateForm_verdict)
  then show "\<forall>f\<in>set fields. \<not> field_fails pg f" using ok by (simp add: field_fails_def)
qed

text \<open>A form whose four fields all pass validation starts the send.\<close>

lemma handleSubmit_valid:
  assumes "\<forall>f\<in>set fields. \<not> field_fails pg f"
  shows "\<exists>pg1 formData templateParams.
           handleSubmit now isoDate pg = (pg1, Some (formData, templateParams))"
proof -
  let ?pg1 = "pg\<lparr> formStatus_className := ''form-status'', formStatus_textContent := [] \<rparr>"
  obtain pg2 ok where v: "validateForm ?pg1 = (pg2, ok)" by (cases "validateForm ?pg1") auto
  have "ok = (\<forall>f\<in>set fields. isValid (validateField f (input_value (inputs ?pg1 f))))"
    using v by (rule validateForm_verdict)
  then have ok using assms by (simp add: field_fails_def)
  then show ?thesis using v by (simp add: handleSubmit_def Let_def)
qed

lemma fold_clear_storage:
  "storage (fold (\<lambda>fieldId. clearFieldError fieldId b) fs pg) = storage pg"
  by (induction fs arbitrary: pg) (simp_all add: clearFieldError_frame)

lemma handleSubmit_then_storage:
  assumes "saveMessageToStorage formData (storage pg) = Inr st"
  shows "\<exists>pg3. handleSubmit_then formData pg = Inr pg3 \<and> storage pg3 = st"
  using assms by (simp add: handleSubmit_then_def Let_def fold_clear_storage reset_def)

lemma handleSubmit_catch_storage: "storage (handleSubmit_catch pg) = storage pg"
  by (simp add: handleSubmit_catch_def)

text \<open>
  C5. When a submission has started the send (the submit button is disabled by then and
  nothing has been written to localStorage) and the send is rejected, localStorage is
  what it was before the submission, the status line shows the failure message with the
  error class, and the submit button is enabled again with its label restored.
\<close>

theorem send_failure_keeps_store:
  assumes "handleSubmit now isoDate pg = (pg1, Some (formData, templateParams))"
  shows "storage pg1 = storage pg \<and> submitBtn_disabled pg1 \<and>
         storage (handleSubmit_settled Rejected formData pg1) = storage pg \<and>
         formStatus_className (handleSubmit_settled Rejected formData pg1) = ''form-status error'' \<and>
         formStatus_textContent (handleSubmit_settled Rejected formData pg1) =
           ''Failed to send message. Please try again or email me directly.'' \<and>
         \<not> submitBtn_disabled (handleSubmit_settled Rejected formData pg1) \<and>
         submitBtn_textContent (handleSubmit_settled Rejected formData pg1) = ''Send Message'' \<and>
         storage (step (Submit now isoDate Rejected) pg) = storage pg"
proof -
  have s: "storage pg1 = storage pg" using handleSubmit_storage [of now isoDate pg] assms by simp
  have d: "submitBtn_disabled pg1" using assms by (rule handleSubmit_started)
  have r: "handleSubmit_settled Rejected formData pg1 = handleSubmit_catch pg1"
    by (simp add: handleSubmit_settled_def)
  have st: "step (Submit now isoDate Rejected) pg = handleSubmit_catch pg1"
    using assms by (simp add: handleSubmit_settled_def)
  show ?thesis using s d unfolding r st by (simp add: handleSubmit_catch_def)
qed

theorem send_failure_keeps_store_witness:
  "\<exists>pg1 formData templateParams.
     handleSubmit 1700000000000 (of_ascii ''2026-01-29T15:45:00.000Z'')
       (example_page
          (filled_form ''Jo'' ''jo@x.com'' ''Hi there'' ''This is a sufficiently long message.'')
          (Some (JsonText (JArr [message 5 ''An earlier message.'']))))
       = (pg1, Some (formData, templateParams)) \<and>
     submitBtn_disabled pg1 \<and>
     storage (handleSubmit_settled Rejected formData pg1) =
       \<lparr> contactMessages = Some (JsonText (JArr [message 5 ''An earlier message.''])),
         theme = None \<rparr> \<and>
     \<not> submitBtn_disabled (handleSubmit_settled Rejected formData pg1) \<and>
     formStatus_className (handleSubmit_settled Rejected formData pg1) = ''form-status error''"
proof -
  let ?P = "example_page
          (filled_form ''Jo'' ''jo@x.com'' ''Hi there'' ''This is a sufficiently long message.'')
          (Some (JsonText (JArr [message 5 ''An earlier message.''])))"
  obtain pg1 formData templateParams
    where h: "handleSubmit 1700000000000 (of_ascii ''2026-01-29T15:45:00.000Z'') ?P
                = (pg1, Some (formData, templateParams))"
    using handleSubmit_valid [OF good_form_passes] by blast
  have s: "storage ?P =
      \<lparr> contactMessages = Some (JsonText (JArr [message 5 ''An earlier message.''])),
        theme = None \<rparr>"
    by (simp add: example_page_def)
  show ?thesis using send_failure_keeps_store [OF h] h s by auto
qed

lemma formData_is_message:
  assumes "handleSubmit now (of_ascii ''2026-01-29T15:45:00.000Z'')
       (example_page (filled_form ''Jo'' ''jo@x.com'' ''Hi there'' body) item)
       = (pg1, Some (formData, templateParams))"
    and "trim (of_ascii body) = of_ascii body"
  shows "formData = message now body"
  unfolding handleSubmit_started(2) [OF assms(1)] message_def
  using assms(2)
  by (simp add: example_page_def filled_form_def blank_input_def)
    (simp add: trim_def of_ascii_def isWhiteSpace_def)

text \<open>
  C8, as the claim states it, fails: with a message of id 1700000000000 in the store, a
  submission at the clock reading 1700000000000 whose send succeeds inserts a second
  message with the same id.
\<close>

theorem same_clock_reading_repeats_id:
  "getMessagesFromStorage (storage
     (step (Submit 1700000000000 (of_ascii ''2026-01-29T15:45:00.000Z'') Fulfilled)
        (example_page
           (filled_form ''Jo'' ''jo@x.com'' ''Hi there'' ''This is a sufficiently long message.'')
           (Some (JsonText (JArr [message 1700000000000 ''An earlier message.'']))))))
     = Inr (JArr [message 1700000000000 ''This is a sufficiently long message.'',
                  message 1700000000000 ''An earlier message.'']) \<and>
   has_id 1700000000000 (message 1700000000000 ''This is a sufficiently long message.'') \<and>
   has_id 1700000000000 (message 1700000000000 ''An earlier message.'')"
proof -
  let ?old = "message 1700000000000 ''An earlier message.''"
  let ?new = "message 1700000000000 ''This is a sufficiently long message.''"
  let ?P = "example_page
          (filled_form ''Jo'' ''jo@x.com'' ''Hi there'' ''This is a sufficiently long message.'')
          (Some (JsonText (JArr [?old])))"
  obtain pg1 formData templateParams
    where h: "handleSubmit 1700000000000 (of_ascii ''2026-01-29T15:45:00.000Z'') ?P
                = (pg1, Some (formData, templateParams))"
    using handleSubmit_valid [OF good_form_passes] by blast
  have t: "trim (of_ascii ''This is a sufficiently long message.'') =
             of_ascii ''This is a sufficiently long message.''"
    by (simp add: trim_def of_ascii_def isWhiteSpace_def)
  have fd: "formData = ?new" using h t by (rule formData_is_message)
  have "storage pg1 = storage ?P"
    using handleSubmit_storage [of 1700000000000 "of_ascii ''2026-01-29T15:45:00.000Z''" ?P] h
    by simp
  then have a: "holds_array (storage pg1) [?old]"
    by (simp add: holds_array_def example_page_def)
  let ?st = "(storage pg1)\<lparr> contactMessages := Some (JsonText (JArr [?new, ?old])) \<rparr>"
  have "saveMessageToStorage ?new (storage pg1) = Inr ?st" using a by (rule save_array)
  then obtain pg3 where p: "handleSubmit_then ?new pg1 = Inr pg3" "storage pg3 = ?st"
    using handleSubmit_then_storage by blast
  have "step (Submit 1700000000000 (of_ascii ''2026-01-29T15:45:00.000Z'') Fulfilled) ?P = pg3"
    using h fd p(1) by (simp add: handleSubmit_settled_def)
  moreover have "getMessagesFromStorage ?st = Inr (JArr [?new, ?old])"
    by (simp add: getMessagesFromStorage_def JSON_parse_def or_empty_def)
  moreover have "has_id 1700000000000 ?new" "has_id 1700000000000 ?old"
    by (simp_all add: has_id_def message_def)
  ultimately show ?thesis using p(2) by simp
qed

text \<open>
  C8, amended. The id of the message a submission builds is the clock reading taken at
  the submission. When the send has succeeded and the store then holds a collection in
  which no entry has that reading as its id (as when every stored id was read strictly
  earlier from a strictly increasing clock), the message is inserted at the head and is
  the only entry of the collection with its id.
\<close>

theorem inserted_id_unique_when_fresh:
  assumes "handleSubmit now isoDate pg = (pg1, Some (formData, templateParams))"
    and "holds_array (storage pg2) xs"
    and "\<forall>m\<in>set xs. \<not> has_id now m"
  shows "has_id now formData \<and>
         (\<exists>pg3. handleSubmit_then formData pg2 = Inr pg3 \<and>
            getMessagesFromStorage (storage pg3) = Inr (JArr (formData # xs)) \<and>
            filter (has_id now) (formData # xs) = [formData])"
proof -
  have fd: "has_id now formData"
    unfolding handleSubmit_started(2) [OF assms(1)] by (simp add: has_id_def)
  let ?st = "(storage pg2)\<lparr> contactMessages := Some (JsonText (JArr (formData # xs))) \<rparr>"
  have "saveMessageToStorage formData (storage pg2) = Inr ?st"
    using assms(2) by (rule save_array)
  then obtain pg3 where p: "handleSubmit_then formData pg2 = Inr pg3" "storage pg3 = ?st"
    using handleSubmit_then_storage by blast
  have "holds_array ?st (formData # xs)" by (simp add: holds_array_def)
  then have g: "getMessagesFromStorage (storage pg3) = Inr (JArr (formData # xs))"
    unfolding p(2) by (rule get_array)
  have "filter (has_id now) xs = []" using assms(3) by (simp add: filter_empty_conv)
  then have "filter (has_id now) (formData # xs) = [formData]" using fd by simp
  then show ?thesis using fd p(1) g by blast
qed

theorem inserted_id_unique_when_fresh_witness:
  "\<exists>pg1 formData templateParams pg3.
     handleSubmit 1700000000001 (of_ascii ''2026-01-29T15:45:00.000Z'')
       (example_page
          (filled_form ''Jo'' ''jo@x.com'' ''Hi there'' ''This is a sufficiently long message.'')
          (Some (JsonText (JArr [message 1700000000000 ''An earlier message.'']))))
       = (pg1, Some (formData, templateParams)) \<and>
     holds_array (storage pg1) [message 1700000000000 ''An earlier message.''] \<and>
     \<not> has_id 1700000000001 (message 1700000000000 ''An earlier message.'') \<and>
     has_id 1700000000001 formData \<and>
     handleSubmit_then formData pg1 = Inr pg3 \<and>
     getMessagesFromStorage (storage pg3) =
       Inr (JArr [formData, message 1700000000000 ''An earlier message.''])"
proof -
  let ?P = "example_page
          (filled_form ''Jo'' ''jo@x.com'' ''Hi there'' ''This is a sufficiently long message.'')
          (Some (JsonText (JArr [message 1700000000000 ''An earlier message.''])))"
  obtain pg1 formData templateParams
    where h: "handleSubmit 1700000000001 (of_ascii ''2026-01-29T15:45:00.000Z'') ?P
                = (pg1, Some (formData, templateParams))"
    using handleSubmit_valid [OF good_form_passes] by blast
  have "storage pg1 = storage ?P"
    using handleSubmit_storage [of 1700000000001 "of_ascii ''2026-01-29T15:45:00.000Z''" ?P] h
    by simp
  then have a: "holds_array (storage pg1) [message 1700000000000 ''An earlier message.'']"
    by (simp add: holds_array_def example_page_def)
  have n: "\<not> has_id 1700000000001 (message 1700000000000 ''An earlier message.'')"
    by (simp add: has_id_def message_def)
  then have f: "\<forall>m\<in>set [message 1700000000000 ''An earlier message.'']. \<not> has_id 1700000000001 m"
    by simp
  show ?thesis using inserted_id_unique_when_fresh [OF h a f] h a n by blast
qed

section \<open>The theme preference\<close>

lemma save_theme: "saveMessageToStorage m st = Inr st' \<Longrightarrow> theme st' = theme st"
  by (auto simp: saveMessageToStorage_def split: sum.splits)

lemma delete_theme: "deleteMessage i st = Inr st' \<Longrightarrow> theme st' = theme st"
  by (auto simp: deleteMessage_def split: sum.splits)

lemma then_theme:
  assumes "handleSubmit_then formData pg = Inr pg'"
  shows "theme (storage pg') = theme (storage pg)"
proof (cases "saveMessageToStorage formData (storage pg)")
  case (Inl e)
  then show ?thesis using assms by (simp add: handleSubmit_then_def)
next
  case (Inr st)
  then obtain pg3 where "handleSubmit_then formData pg = Inr pg3" "storage pg3 = st"
    using handleSubmit_then_storage by blast
  then show ?thesis using assms save_theme [OF Inr] by simp
qed

lemma settled_theme:
  "theme (storage (handleSubmit_settled result formData pg)) = theme (storage pg)"
  by (auto simp: handleSubmit_settled_def handleSubmit_catch_storage then_theme
      split: outcome.splits sum.splits)

text \<open>Only the theme toggle writes under the theme key.\<close>

lemma step_theme: "e \<noteq> ToggleTheme \<Longrightarrow> theme (storage (step e pg)) = theme (storage pg)"
proof (cases e)
  case (Submit now isoDate result)
  obtain pg1 r where h: "handleSubmit now isoDate pg = (pg1, r)"
    by (cases "handleSubmit now isoDate pg") auto
  have "storage pg1 = storage pg" using handleSubmit_storage [of now isoDate pg] h by simp
  then show ?thesis using Submit h by (auto simp: settled_theme split: option.splits)
next
  case (DeleteMessage i)
  then show ?thesis by (auto simp: delete_theme split: sum.splits)
next
  case (ClearAll c)
  then show ?thesis by (simp add: clearAllMessages_def)
next
  case ToggleTheme
  assume "e \<noteq> ToggleTheme"
  then show ?thesis using ToggleTheme by simp
next
  case (OsThemeChanged m)
  then show ?thesis by (simp add: osThemeChanged_def Let_def)
next
  case (InitializeTheme d)
  then show ?thesis by (simp add: initializeTheme_def Let_def)
qed

lemma toggle_theme:
  "theme (storage (toggleTheme pg)) =
     Some (of_ascii (if ''dark-mode'' \<in> body_classList pg then ''light'' else ''dark''))"
  by (simp add: toggleTheme_def Let_def)

lemma step_theme_ok: "theme_ok (storage pg) \<Longrightarrow> theme_ok (storage (step e pg))"
proof (cases "e = ToggleTheme")
  case True
  then show ?thesis by (simp add: theme_ok_def toggle_theme)
next
  case False
  assume "theme_ok (storage pg)"
  then show ?thesis using step_theme [OF False, of pg] by (simp add: theme_ok_def)
qed

lemma run_theme_ok: "theme_ok (storage pg) \<Longrightarrow> theme_ok (storage (fold step es pg))"
  by (induction es arbitrary: pg) (simp_all add: step_theme_ok)

text \<open>
  C9. If the theme key is absent or holds \<open>dark\<close> or \<open>light\<close>, it still does after any
  sequence of events. No event but the theme toggle changes the key, and the toggle
  writes \<open>dark\<close> when the body has the dark-mode class afterwards and \<open>light\<close>
  otherwise. While the key is absent the operating system's preference is followed: at
  initialisation the body of a page that is not dark gets the dark-mode class exactly
  when the system prefers dark, and a change of the system's colour scheme sets the
  class accordingly.
\<close>

theorem theme_dark_or_light:
  "(theme_ok (storage pg) \<longrightarrow> theme_ok (storage (fold step es pg))) \<and>
   (e \<noteq> ToggleTheme \<longrightarrow> theme (storage (step e pg)) = theme (storage pg)) \<and>
   theme (storage (toggleTheme pg)) =
     Some (of_ascii (if ''dark-mode'' \<in> body_classList (toggleTheme pg)
                     then ''dark'' else ''light'')) \<and>
   (theme (storage pg) = None \<and> ''dark-mode'' \<notin> body_classList pg \<longrightarrow>
      (''dark-mode'' \<in> body_classList (initializeTheme prefersDark pg)) = prefersDark) \<and>
   (theme (storage pg) = None \<longrightarrow>
      (''dark-mode'' \<in> body_classList (osThemeChanged matches pg)) = matches)"
proof -
  have "theme (storage (toggleTheme pg)) =
     Some (of_ascii (if ''dark-mode'' \<in> body_classList (toggleTheme pg)
                     then ''dark'' else ''light''))"
    by (simp add: toggleTheme_def Let_def)
  moreover have "theme (storage pg) = None \<and> ''dark-mode'' \<notin> body_classList pg \<longrightarrow>
      (''dark-mode'' \<in> body_classList (initializeTheme prefersDark pg)) = prefersDark"
    by (simp add: initializeTheme_def Let_def unset_def of_ascii_def)
  moreover have "theme (storage pg) = None \<longrightarrow>
      (''dark-mode'' \<in> body_classList (osThemeChanged matches pg)) = matches"
    by (simp add: osThemeChanged_def Let_def unset_def)
  ultimately show ?thesis using run_theme_ok step_theme by blast
qed

theorem theme_dark_or_light_witness:
  "theme_ok (storage (example_page (filled_form [] [] [] []) None)) \<and>
   theme_ok (storage (fold step [ToggleTheme, ClearAll True, ToggleTheme, DeleteMessage 1]
                        (example_page (filled_form [] [] [] []) None))) \<and>
   theme (storage (step (ClearAll True) (example_page (filled_form [] [] [] []) None))) = None \<and>
   theme (storage (toggleTheme (example_page (filled_form [] [] [] []) None)))
     = Some (of_ascii ''dark'') \<and>
   ''dark-mode'' \<in> body_classList
     (initializeTheme True (example_page (filled_form [] [] [] []) None)) \<and>
   ''dark-mode'' \<notin> body_classList
     (osThemeChanged False (example_page (filled_form [] [] [] []) None))"
proof -
  let ?P = "example_page (filled_form [] [] [] []) None"
  have ok: "theme_ok (storage ?P)" by (simp add: theme_ok_def example_page_def)
  have none: "theme (storage ?P) = None" "''dark-mode'' \<notin> body_classList ?P"
    by (simp_all add: example_page_def)
  have ne: "ClearAll True \<noteq> ToggleTheme" by simp
  note T = theme_dark_or_light
    [of ?P "[ToggleTheme, ClearAll True, ToggleTheme, DeleteMessage 1]" "ClearAll True" True False]
  have a: "theme_ok (storage (fold step [ToggleTheme, ClearAll True, ToggleTheme, DeleteMessage 1] ?P))"
    using T ok by blast
  have b: "theme (storage (step (ClearAll True) ?P)) = None"
    using T ne none(1) by simp
  have "''dark-mode'' \<in> body_classList (toggleTheme ?P)"
    using none(2) by (simp add: toggleTheme_def Let_def)
  then have c: "theme (storage (toggleTheme ?P)) = Some (of_ascii ''dark'')"
    using T by simp
  have d: "''dark-mode'' \<in> body_classList (initializeTheme True ?P)"
    using T none by blast
  have e: "''dark-mode'' \<notin> body_classList (osThemeChanged False ?P)"
    using T none(1) by blast
  show ?thesis using ok a b c d e by blast
qed

end
